theory Spec2Isabelle
  imports Complex_Main
begin

section \<open>Tensors, errors and the library operations used by the flows\<close>

text \<open>
  A tensor is its shape and its elements in row-major order (a contiguous tensor).
  Elements are exact reals: rounding of 32-bit floats is not part of the model, so an
  equality proved here is the equality that the program approximates up to rounding.
  A raised exception is a value of type \<open>error\<close>.
\<close>

datatype error = IndexError | RuntimeError | ZeroDivisionError

type_synonym matrix = "real list list"

definition bind_err :: "error + 'a \<Rightarrow> ('a \<Rightarrow> error + 'b) \<Rightarrow> error + 'b" where
  "bind_err m f = (case m of Inl e \<Rightarrow> Inl e | Inr x \<Rightarrow> f x)"

record tensor =
  shape :: "nat list"
  data :: "real list"

definition numel :: "tensor \<Rightarrow> nat" where
  "numel t = prod_list (shape t)"


text \<open>\<open>t.size(i)\<close> for a non-negative index: IndexError when the dimension is absent.\<close>

definition size_at :: "tensor \<Rightarrow> nat \<Rightarrow> error + nat" where
  "size_at t i = (if i < length (shape t) then Inr (shape t ! i) else Inl IndexError)"

text \<open>\<open>t.view(B, C, -1)\<close>: the last size is inferred; it cannot be inferred when
  \<open>B * C = 0\<close>, and the element count has to be a multiple of \<open>B * C\<close>.\<close>

definition view_infer :: "tensor \<Rightarrow> nat \<Rightarrow> nat \<Rightarrow> error + tensor" where
  "view_infer t B C =
     (if B * C = 0 then Inl RuntimeError
      else if numel t mod (B * C) \<noteq> 0 then Inl RuntimeError
      else Inr \<lparr>shape = [B, C, numel t div (B * C)], data = data t\<rparr>)"

text \<open>\<open>t.view(s)\<close> for an explicit shape \<open>s\<close>.\<close>

definition view :: "tensor \<Rightarrow> nat list \<Rightarrow> error + tensor" where
  "view t s = (if prod_list s = numel t then Inr \<lparr>shape = s, data = data t\<rparr> else Inl RuntimeError)"

definition unsqueeze_last :: "tensor \<Rightarrow> tensor" where
  "unsqueeze_last t = \<lparr>shape = shape t @ [1], data = data t\<rparr>"

definition squeeze_last :: "tensor \<Rightarrow> tensor" where
  "squeeze_last t =
     (if shape t \<noteq> [] \<and> last (shape t) = 1 then \<lparr>shape = butlast (shape t), data = data t\<rparr> else t)"

text \<open>Cutting a flat list into consecutive pieces of \<open>n\<close> elements.\<close>

function chunks :: "nat \<Rightarrow> 'a list \<Rightarrow> 'a list list" where
  "chunks n xs = (if n = 0 \<or> xs = [] then [] else take n xs # chunks n (drop n xs))"
  by pat_completeness auto
termination
  by (relation "measure (\<lambda>(n, xs). length xs)") auto

declare chunks.simps [simp del]

subsection \<open>Vectors and matrices as lists\<close>

definition dot :: "real list \<Rightarrow> real list \<Rightarrow> real" where
  "dot xs ys = sum_list (map2 (*) xs ys)"

definition ncols :: "matrix \<Rightarrow> nat" where
  "ncols A = (case A of [] \<Rightarrow> 0 | r # _ \<Rightarrow> length r)"

definition col :: "matrix \<Rightarrow> nat \<Rightarrow> real list" where
  "col A j = map (\<lambda>r. r ! j) A"

definition is_mat :: "nat \<Rightarrow> nat \<Rightarrow> matrix \<Rightarrow> bool" where
  "is_mat n m A \<longleftrightarrow> length A = n \<and> list_all (\<lambda>r. length r = m) A"

definition mat_vec :: "matrix \<Rightarrow> real list \<Rightarrow> real list" where
  "mat_vec A v = map (\<lambda>r. dot r v) A"

text \<open>\<open>A @ B\<close> on two-dimensional tensors.\<close>

definition mat_mul :: "matrix \<Rightarrow> matrix \<Rightarrow> matrix" where
  "mat_mul A B = map (\<lambda>r. map (\<lambda>j. dot r (col B j)) [0..<ncols B]) A"

text \<open>\<open>A * B\<close> and \<open>A + B\<close> elementwise, on equal shapes.\<close>

definition mat_hadamard :: "matrix \<Rightarrow> matrix \<Rightarrow> matrix" where
  "mat_hadamard A B = map2 (map2 (*)) A B"

definition mat_add :: "matrix \<Rightarrow> matrix \<Rightarrow> matrix" where
  "mat_add A B = map2 (map2 (+)) A B"

definition mat_transpose :: "matrix \<Rightarrow> matrix" where
  "mat_transpose A = map (col A) [0..<ncols A]"

text \<open>\<open>torch.diag\<close> of a vector and of a square matrix, \<open>torch.eye\<close>, and
  \<open>np.tril(np.ones((n, n)), k=-1)\<close>.\<close>

definition diag_mat :: "real list \<Rightarrow> matrix" where
  "diag_mat v = map (\<lambda>i. map (\<lambda>j. if i = j then v ! i else 0) [0..<length v]) [0..<length v]"

definition diag_of :: "matrix \<Rightarrow> real list" where
  "diag_of A = map (\<lambda>i. A ! i ! i) [0..<length A]"

definition eye :: "nat \<Rightarrow> matrix" where
  "eye n = map (\<lambda>i. map (\<lambda>j. if i = j then 1 else 0) [0..<n]) [0..<n]"

definition tril_ones :: "nat \<Rightarrow> matrix" where
  "tril_ones n = map (\<lambda>i. map (\<lambda>j. if j < i then 1 else 0) [0..<n]) [0..<n]"

text \<open>\<open>torch.matmul(W, t)\<close> for a two-dimensional \<open>W\<close> and a three-dimensional \<open>t\<close> of
  shape \<open>(B, C, R)\<close>, the only case that arises: \<open>W\<close> is broadcast over the batch and
  multiplies each \<open>C \<times> R\<close> sample from the left.\<close>

definition matmul :: "matrix \<Rightarrow> tensor \<Rightarrow> error + tensor" where
  "matmul W t =
     (case shape t of
        [B, C, R] \<Rightarrow>
          if ncols W \<noteq> C then Inl RuntimeError
          else Inr \<lparr>shape = [B, length W, R],
                    data = concat (map (\<lambda>s. concat (mat_mul W (chunks R s))) (chunks (C * R) (data t)))\<rparr>
      | _ \<Rightarrow> Inl RuntimeError)"

subsection \<open>Pivoted LU: unpacking and solving\<close>

text \<open>Pivots are the 1-based row interchanges of a partially pivoted factorisation:
  row \<open>k\<close> was interchanged with row \<open>piv ! k - 1\<close>, for \<open>k = 0, 1, \<dots>\<close> in turn.\<close>

definition swap_list :: "nat \<Rightarrow> nat \<Rightarrow> 'a list \<Rightarrow> 'a list" where
  "swap_list i j xs = xs[i := xs ! j, j := xs ! i]"

definition apply_pivots :: "nat list \<Rightarrow> 'a list \<Rightarrow> 'a list" where
  "apply_pivots piv xs = fold (\<lambda>k v. swap_list k (piv ! k - 1) v) [0..<length piv] xs"

definition valid_pivots :: "nat \<Rightarrow> nat list \<Rightarrow> bool" where
  "valid_pivots n piv \<longleftrightarrow> length piv = n \<and> list_all (\<lambda>p. 1 \<le> p \<and> p \<le> n) piv"

text \<open>\<open>torch.lu_unpack\<close> on one square matrix: the permutation matrix selects the
  columns of the identity in the order that the interchanges leave \<open>0, \<dots>, m - 1\<close> in.\<close>

definition final_order :: "nat \<Rightarrow> nat list \<Rightarrow> nat list" where
  "final_order m piv = fold (\<lambda>k fo. swap_list k (piv ! k - 1) fo) [0..<length piv] [0..<m]"

definition index_select_cols :: "matrix \<Rightarrow> nat list \<Rightarrow> matrix" where
  "index_select_cols A idx = map (\<lambda>r. map (\<lambda>c. r ! c) idx) A"

definition lu_unpack :: "matrix \<Rightarrow> nat list \<Rightarrow> matrix \<times> matrix \<times> matrix" where
  "lu_unpack LU piv =
     (let m = length LU in
      (index_select_cols (eye m) (final_order m piv),
       map (\<lambda>i. map (\<lambda>j. if j < i then LU ! i ! j else if i = j then 1 else 0) [0..<m]) [0..<m],
       map (\<lambda>i. map (\<lambda>j. if i \<le> j then LU ! i ! j else 0) [0..<m]) [0..<m]))"

text \<open>The solve of \<open>torch.lu_solve\<close> for one right-hand side: interchange, then forward
  substitution with the unit lower triangle of the packed matrix, then back substitution
  with its upper triangle. Only the strict lower triangle is read in the first pass and only
  the diagonal and what is above it in the second.\<close>

fun forward_subst :: "matrix \<Rightarrow> real list \<Rightarrow> real list \<Rightarrow> real list" where
  "forward_subst (r # rs) (y # ys) xs = forward_subst rs ys (xs @ [y - dot (take (length xs) r) xs])"
| "forward_subst _ _ xs = xs"

fun back_subst :: "nat \<Rightarrow> matrix \<Rightarrow> real list \<Rightarrow> real list" where
  "back_subst k (r # rs) (y # ys) =
     (let xs = back_subst (Suc k) rs ys in (y - dot (drop (Suc k) r) xs) / (r ! k) # xs)"
| "back_subst k _ _ = []"

definition solve_vec :: "matrix \<Rightarrow> nat list \<Rightarrow> real list \<Rightarrow> real list" where
  "solve_vec LU piv b = back_subst 0 LU (forward_subst LU (apply_pivots piv b) [])"

definition solve_mat :: "matrix \<Rightarrow> nat list \<Rightarrow> matrix \<Rightarrow> matrix" where
  "solve_mat LU piv Bm =
     (let X = map (\<lambda>j. solve_vec LU piv (col Bm j)) [0..<ncols Bm]
      in map (\<lambda>i. map (\<lambda>j. X ! j ! i) [0..<ncols Bm]) [0..<length LU])"

text \<open>\<open>torch.lu_solve(b, LU.unsqueeze(0), pivots.unsqueeze(0))\<close>: \<open>b\<close> has shape
  \<open>(*, m, k)\<close> with at least two dimensions, the one packed matrix is square with as many
  pivots as columns and \<open>m\<close> rows, and its batch dimension \<open>(1)\<close> is broadcast against
  the batch dimensions of \<open>b\<close>.\<close>

definition lu_solve :: "tensor \<Rightarrow> matrix \<Rightarrow> nat list \<Rightarrow> error + tensor" where
  "lu_solve b LU piv =
     (if length (shape b) < 2 then Inl RuntimeError
      else
        let k = last (shape b); m = last (butlast (shape b)); bs = butlast (butlast (shape b)) in
        if length piv \<noteq> ncols LU then Inl RuntimeError
        else if ncols LU \<noteq> length LU then Inl RuntimeError
        else if length LU \<noteq> m then Inl RuntimeError
        else Inr \<lparr>shape = (if bs = [] then [1] else bs) @ [m, k],
                  data = concat (map (\<lambda>s. concat (solve_mat LU piv (chunks k s))) (chunks (m * k) (data b)))\<rparr>)"

section \<open>The invertible 1x1 convolution\<close>

record InvertibleConv1x1 =
  conv_P :: matrix
  conv_L :: matrix
  conv_U :: matrix
  conv_I :: matrix
  pivots :: "nat list"
  L_mask :: matrix
  U_mask :: matrix
  log_s :: "real list"
  sign_s :: "real list"

text \<open>The constructor, from the packed factorisation and the pivots that \<open>torch.lu\<close>
  returned for the random orthogonal matrix. The constructor of the source fails for
  no channels (the orthogonal initialisation divides by the number of rows).\<close>

definition InvertibleConv1x1_init :: "nat \<Rightarrow> matrix \<Rightarrow> nat list \<Rightarrow> error + InvertibleConv1x1" where
  "InvertibleConv1x1_init in_out_channels LU piv =
     (if in_out_channels = 0 then Inl ZeroDivisionError
      else
        let (P, L, U) = lu_unpack LU piv;
            Lm = tril_ones in_out_channels;
            Um = mat_transpose Lm;
            s = diag_of U
        in Inr \<lparr>conv_P = P, conv_L = L, conv_U = U, conv_I = eye in_out_channels, pivots = piv,
                 L_mask = Lm, U_mask = Um, log_s = map (\<lambda>x. ln \<bar>x\<bar>) s, sign_s = map sgn s\<rparr>)"

text \<open>What \<open>torch.lu\<close> returns for a non-singular \<open>n \<times> n\<close> matrix: a square packed
  matrix with a non-zero diagonal, and \<open>n\<close> pivots between 1 and \<open>n\<close>.\<close>

definition lu_result :: "nat \<Rightarrow> matrix \<Rightarrow> nat list \<Rightarrow> bool" where
  "lu_result n LU piv \<longleftrightarrow>
     length LU = n \<and> list_all (\<lambda>r. length r = n) LU \<and> valid_pivots n piv \<and>
     list_all (\<lambda>i. LU ! i ! i \<noteq> 0) [0..<n]"

text \<open>What the constructor establishes and an optimiser step keeps: the shapes, the
  frozen permutation, masks and identity, and signs that are 1 or -1 (the diagonal of the
  factorisation of a non-singular matrix has no zero).\<close>

definition conv_wf :: "nat \<Rightarrow> InvertibleConv1x1 \<Rightarrow> bool" where
  "conv_wf n c \<longleftrightarrow>
     0 < n \<and> is_mat n n (conv_L c) \<and> is_mat n n (conv_U c) \<and> conv_I c = eye n \<and>
     valid_pivots n (pivots c) \<and>
     conv_P c = index_select_cols (eye n) (final_order n (pivots c)) \<and>
     L_mask c = tril_ones n \<and> U_mask c = mat_transpose (tril_ones n) \<and>
     length (log_s c) = n \<and> length (sign_s c) = n \<and>
     list_all (\<lambda>s. s = 1 \<or> s = -1) (sign_s c)"

text \<open>An optimiser step writes the tensors that require a gradient, keeping their shapes.\<close>

definition update_params :: "InvertibleConv1x1 \<Rightarrow> matrix \<Rightarrow> matrix \<Rightarrow> real list \<Rightarrow> InvertibleConv1x1" where
  "update_params c L' U' ls' = c\<lparr>conv_L := L', conv_U := U', log_s := ls'\<rparr>"

definition eff_L :: "InvertibleConv1x1 \<Rightarrow> matrix" where
  "eff_L c = mat_add (mat_hadamard (conv_L c) (L_mask c)) (conv_I c)"

definition eff_diag :: "InvertibleConv1x1 \<Rightarrow> real list" where
  "eff_diag c = map2 (*) (sign_s c) (map exp (log_s c))"

definition eff_U :: "InvertibleConv1x1 \<Rightarrow> matrix" where
  "eff_U c = mat_add (mat_hadamard (conv_U c) (U_mask c)) (diag_mat (eff_diag c))"

definition weight :: "InvertibleConv1x1 \<Rightarrow> matrix" where
  "weight c = mat_mul (mat_mul (conv_P c) (eff_L c)) (eff_U c)"

definition InvertibleConv1x1_forward ::
  "InvertibleConv1x1 \<Rightarrow> tensor \<Rightarrow> real list \<Rightarrow> error + (tensor \<times> real list)" where
  "InvertibleConv1x1_forward c z log_det_jacobians =
     bind_err (size_at z 0) (\<lambda>B.
     bind_err (size_at z 1) (\<lambda>C.
     bind_err (view_infer z B C) (\<lambda>z3.
     bind_err (matmul (weight c) z3) (\<lambda>m.
     bind_err (view m (shape z)) (\<lambda>out.
     Inr (out, map (\<lambda>v. v + sum_list (log_s c)) log_det_jacobians))))))"

definition packed_LU :: "InvertibleConv1x1 \<Rightarrow> matrix" where
  "packed_LU c =
     mat_add (mat_add (mat_hadamard (conv_L c) (L_mask c)) (mat_hadamard (conv_U c) (U_mask c)))
       (diag_mat (eff_diag c))"

definition InvertibleConv1x1_backward ::
  "InvertibleConv1x1 \<Rightarrow> tensor \<Rightarrow> real list \<Rightarrow> error + (tensor \<times> real list)" where
  "InvertibleConv1x1_backward c y log_det_jacobians =
     bind_err (lu_solve (unsqueeze_last y) (packed_LU c) (pivots c)) (\<lambda>x.
     Inr (squeeze_last x, map (\<lambda>v. v - sum_list (log_s c)) log_det_jacobians))"

text \<open>Calls on a live instance. Both methods take the accumulator as a tensor object, write
  it in place (\<open>+=\<close> in forward, \<open>-=\<close> under \<open>no_grad\<close> in backward) and return that
  same object; nothing else is written. The object may be a tensor of the caller
  (\<open>Ext k\<close>) or one of the tensors that the instance stores. The heap holds the instance and
  the caller's tensors. An in-place addition of a float to the integer pivots raises; with
  gradients enabled (forward) an in-place write to a leaf that requires a gradient raises.\<close>

datatype acc_ref =
    Ext nat
  | Ref_P | Ref_L | Ref_U | Ref_I | Ref_pivots | Ref_L_mask | Ref_U_mask | Ref_log_s | Ref_sign_s

record heap =
  inst :: InvertibleConv1x1
  ext :: "nat \<Rightarrow> real list"

fun read_acc :: "heap \<Rightarrow> acc_ref \<Rightarrow> real list" where
  "read_acc h (Ext k) = ext h k"
| "read_acc h Ref_P = concat (conv_P (inst h))"
| "read_acc h Ref_L = concat (conv_L (inst h))"
| "read_acc h Ref_U = concat (conv_U (inst h))"
| "read_acc h Ref_I = concat (conv_I (inst h))"
| "read_acc h Ref_pivots = map real (pivots (inst h))"
| "read_acc h Ref_L_mask = concat (L_mask (inst h))"
| "read_acc h Ref_U_mask = concat (U_mask (inst h))"
| "read_acc h Ref_log_s = log_s (inst h)"
| "read_acc h Ref_sign_s = sign_s (inst h)"

fun iadd :: "bool \<Rightarrow> heap \<Rightarrow> acc_ref \<Rightarrow> real \<Rightarrow> error + heap" where
  "iadd grad h (Ext k) s = Inr (h\<lparr>ext := (ext h)(k := map (\<lambda>v. v + s) (ext h k))\<rparr>)"
| "iadd grad h Ref_P s = Inr (h\<lparr>inst := (inst h)\<lparr>conv_P := map (map (\<lambda>v. v + s)) (conv_P (inst h))\<rparr>\<rparr>)"
| "iadd grad h Ref_L s =
     (if grad then Inl RuntimeError
      else Inr (h\<lparr>inst := (inst h)\<lparr>conv_L := map (map (\<lambda>v. v + s)) (conv_L (inst h))\<rparr>\<rparr>))"
| "iadd grad h Ref_U s =
     (if grad then Inl RuntimeError
      else Inr (h\<lparr>inst := (inst h)\<lparr>conv_U := map (map (\<lambda>v. v + s)) (conv_U (inst h))\<rparr>\<rparr>))"
| "iadd grad h Ref_I s = Inr (h\<lparr>inst := (inst h)\<lparr>conv_I := map (map (\<lambda>v. v + s)) (conv_I (inst h))\<rparr>\<rparr>)"
| "iadd grad h Ref_pivots s = Inl RuntimeError"
| "iadd grad h Ref_L_mask s = Inr (h\<lparr>inst := (inst h)\<lparr>L_mask := map (map (\<lambda>v. v + s)) (L_mask (inst h))\<rparr>\<rparr>)"
| "iadd grad h Ref_U_mask s = Inr (h\<lparr>inst := (inst h)\<lparr>U_mask := map (map (\<lambda>v. v + s)) (U_mask (inst h))\<rparr>\<rparr>)"
| "iadd grad h Ref_log_s s =
     (if grad then Inl RuntimeError
      else Inr (h\<lparr>inst := (inst h)\<lparr>log_s := map (\<lambda>v. v + s) (log_s (inst h))\<rparr>\<rparr>))"
| "iadd grad h Ref_sign_s s = Inr (h\<lparr>inst := (inst h)\<lparr>sign_s := map (\<lambda>v. v + s) (sign_s (inst h))\<rparr>\<rparr>)"

text \<open>The two methods on the heap: the batch is computed first, from the stored tensors as
  they are; if that raises, nothing has been written; then the accumulator object is written
  in place and returned.\<close>

definition forward_call :: "heap \<Rightarrow> tensor \<Rightarrow> acc_ref \<Rightarrow> heap \<times> (error + tensor \<times> acc_ref)" where
  "forward_call h z r =
     (case InvertibleConv1x1_forward (inst h) z (read_acc h r) of
        Inl e \<Rightarrow> (h, Inl e)
      | Inr res \<Rightarrow>
          (case iadd True h r (sum_list (log_s (inst h))) of
             Inl e \<Rightarrow> (h, Inl e)
           | Inr h' \<Rightarrow> (h', Inr (fst res, r))))"

definition backward_call :: "heap \<Rightarrow> tensor \<Rightarrow> acc_ref \<Rightarrow> heap \<times> (error + tensor \<times> acc_ref)" where
  "backward_call h y r =
     (case InvertibleConv1x1_backward (inst h) y (read_acc h r) of
        Inl e \<Rightarrow> (h, Inl e)
      | Inr res \<Rightarrow>
          (case iadd False h r (- sum_list (log_s (inst h))) of
             Inl e \<Rightarrow> (h, Inl e)
           | Inr h' \<Rightarrow> (h', Inr (fst res, r))))"

datatype conv_call =
    Forward tensor acc_ref
  | Backward tensor acc_ref
  | Update matrix matrix "real list"

fun run_call :: "heap \<Rightarrow> conv_call \<Rightarrow> heap" where
  "run_call h (Forward z r) = fst (forward_call h z r)"
| "run_call h (Backward y r) = fst (backward_call h y r)"
| "run_call h (Update L' U' ls') = h\<lparr>inst := update_params (inst h) L' U' ls'\<rparr>"

fun run_calls :: "heap \<Rightarrow> conv_call list \<Rightarrow> heap" where
  "run_calls h [] = h"
| "run_calls h (x # xs) = run_calls (run_call h x) xs"

text \<open>A call whose accumulator is a tensor of the caller, not one the instance stores.\<close>

fun own_accumulator :: "conv_call \<Rightarrow> bool" where
  "own_accumulator (Forward z (Ext k)) = True"
| "own_accumulator (Backward y (Ext k)) = True"
| "own_accumulator (Update L' U' ls') = True"
| "own_accumulator _ = False"

definition frozen :: "InvertibleConv1x1 \<Rightarrow> matrix \<times> real list \<times> nat list \<times> matrix \<times> matrix \<times> matrix" where
  "frozen c = (conv_P c, sign_s c, pivots c, L_mask c, U_mask c, conv_I c)"

section \<open>The pipeline\<close>

text \<open>Modelled from the spec: the classes \<open>Actnorm\<close> (flows/modules.py) and
  \<open>AffineCoupling\<close> (flows/coupling.py) are not among the source files. A layer is what
  the pipeline uses of them: a forward and an inverse method, each taking and returning a
  state and a log-determinant accumulator.\<close>

record layer =
  fwd :: "tensor \<Rightarrow> real list \<Rightarrow> error + (tensor \<times> real list)"
  bwd :: "tensor \<Rightarrow> real list \<Rightarrow> error + (tensor \<times> real list)"

record Glow =
  n_layers :: nat
  actnorms :: "layer list"
  linears :: "InvertibleConv1x1 list"
  couplings :: "layer list"


fun forward_loop :: "Glow \<Rightarrow> nat list \<Rightarrow> tensor \<times> real list \<Rightarrow> error + (tensor \<times> real list)" where
  "forward_loop g [] s = Inr s"
| "forward_loop g (i # is) s =
     bind_err (fwd (actnorms g ! i) (fst s) (snd s)) (\<lambda>s.
     bind_err (InvertibleConv1x1_forward (linears g ! i) (fst s) (snd s)) (\<lambda>s.
     bind_err (fwd (couplings g ! i) (fst s) (snd s)) (\<lambda>s.
     forward_loop g is s)))"

definition Glow_forward :: "Glow \<Rightarrow> tensor \<Rightarrow> error + (tensor \<times> real list)" where
  "Glow_forward g y =
     bind_err (size_at y 0) (\<lambda>B. forward_loop g [0..<n_layers g] (y, replicate B 0))"

fun backward_loop :: "Glow \<Rightarrow> nat list \<Rightarrow> tensor \<times> real list \<Rightarrow> error + (tensor \<times> real list)" where
  "backward_loop g [] s = Inr s"
| "backward_loop g (i # is) s =
     bind_err (bwd (couplings g ! i) (fst s) (snd s)) (\<lambda>s.
     bind_err (InvertibleConv1x1_backward (linears g ! i) (fst s) (snd s)) (\<lambda>s.
     bind_err (bwd (actnorms g ! i) (fst s) (snd s)) (\<lambda>s.
     backward_loop g is s)))"

definition Glow_backward :: "Glow \<Rightarrow> tensor \<Rightarrow> error + (tensor \<times> real list)" where
  "Glow_backward g z =
     bind_err (size_at z 0) (\<lambda>B. backward_loop g (rev [0..<n_layers g]) (z, replicate B 0))"

text \<open>The pipeline in the words of the specification: a stage applies normalisation, the
  invertible linear transform and the coupling in this order, and is inverted by the three
  inverses in the opposite order; the forward pass runs the stages \<open>0, \<dots>, N - 1\<close> and
  the inverse pass inverts stage \<open>N - 1\<close> first and stage \<open>0\<close> last.\<close>

definition stage_forward :: "Glow \<Rightarrow> nat \<Rightarrow> tensor \<times> real list \<Rightarrow> error + (tensor \<times> real list)" where
  "stage_forward g i s =
     bind_err (fwd (actnorms g ! i) (fst s) (snd s)) (\<lambda>s1.
     bind_err (InvertibleConv1x1_forward (linears g ! i) (fst s1) (snd s1)) (\<lambda>s2.
     fwd (couplings g ! i) (fst s2) (snd s2)))"

definition stage_inverse :: "Glow \<Rightarrow> nat \<Rightarrow> tensor \<times> real list \<Rightarrow> error + (tensor \<times> real list)" where
  "stage_inverse g i s =
     bind_err (bwd (couplings g ! i) (fst s) (snd s)) (\<lambda>s1.
     bind_err (InvertibleConv1x1_backward (linears g ! i) (fst s1) (snd s1)) (\<lambda>s2.
     bwd (actnorms g ! i) (fst s2) (snd s2)))"

fun spec_forward :: "Glow \<Rightarrow> nat \<Rightarrow> tensor \<times> real list \<Rightarrow> error + (tensor \<times> real list)" where
  "spec_forward g 0 s = Inr s"
| "spec_forward g (Suc n) s = bind_err (spec_forward g n s) (stage_forward g n)"

fun spec_inverse :: "Glow \<Rightarrow> nat \<Rightarrow> tensor \<times> real list \<Rightarrow> error + (tensor \<times> real list)" where
  "spec_inverse g 0 s = Inr s"
| "spec_inverse g (Suc n) s = bind_err (stage_inverse g n s) (spec_inverse g n)"

section \<open>The reference determinant\<close>

text \<open>The determinant by cofactor expansion along the first column: the minor of row \<open>i\<close>
  drops that row and the first column. \<open>detf n A\<close> is the determinant of the leading
  \<open>n \<times> n\<close> block of the function \<open>A\<close>; \<open>det\<close> reads a matrix given as a list of rows.\<close>

definition skip :: "nat \<Rightarrow> nat \<Rightarrow> nat" where
  "skip i r = (if r < i then r else Suc r)"

definition unskip :: "nat \<Rightarrow> nat \<Rightarrow> nat" where
  "unskip i k = (if k < i then k else k - 1)"

primrec detf :: "nat \<Rightarrow> (nat \<Rightarrow> nat \<Rightarrow> real) \<Rightarrow> real" where
  "detf 0 A = 1"
| "detf (Suc n) A = (\<Sum>i<Suc n. (- 1) ^ i * A i 0 * detf n (\<lambda>r c. A (skip i r) (Suc c)))"

definition det :: "matrix \<Rightarrow> real" where
  "det M = detf (length M) (\<lambda>i j. M ! i ! j)"

section \<open>A concrete instance\<close>

text \<open>Two channels; the factorisation interchanged the two rows. The instance is the one
  that the constructor builds from this factorisation.\<close>

definition ex_LU :: matrix where
  "ex_LU = [[2, 1], [3, -1]]"

definition ex_piv :: "nat list" where
  "ex_piv = [2, 2]"

definition ex_conv :: InvertibleConv1x1 where
  "ex_conv = \<lparr>conv_P = [[0, 1], [1, 0]], conv_L = [[1, 0], [3, 1]], conv_U = [[2, 1], [0, -1]],
     conv_I = [[1, 0], [0, 1]], pivots = [2, 2], L_mask = [[0, 0], [1, 0]],
     U_mask = [[0, 1], [0, 0]], log_s = [ln 2, 0], sign_s = [1, -1]\<rparr>"




definition ex_state_layer :: layer where
  "ex_state_layer =
     \<lparr>fwd = (\<lambda>x ld. Inr (x\<lparr>data := map (\<lambda>v. v + sum_list ld) (data x)\<rparr>, ld)),
      bwd = (\<lambda>z ld. Inr (z\<lparr>data := map (\<lambda>v. v - sum_list ld) (data z)\<rparr>, ld))\<rparr>"

definition ex_logdet_layer :: layer where
  "ex_logdet_layer =
     \<lparr>fwd = (\<lambda>x ld. Inr (x, map (\<lambda>v. 2 * v) ld)), bwd = (\<lambda>z ld. Inr (z, ld))\<rparr>"


definition ex_heap :: heap where
  "ex_heap = \<lparr>inst = ex_conv, ext = (\<lambda>k. [0])\<rparr>"

section \<open>Basic facts\<close>

lemma bind_err_Inl [simp]: "bind_err (Inl e) f = Inl e"
  by (simp add: bind_err_def)

lemma bind_err_Inr [simp]: "bind_err (Inr x) f = f x"
  by (simp add: bind_err_def)

lemma bind_err_eq_Inr: "bind_err m f = Inr y \<longleftrightarrow> (\<exists>x. m = Inr x \<and> f x = Inr y)"
  by (cases m) auto

lemma bind_err_assoc: "bind_err (bind_err m f) h = bind_err m (\<lambda>x. bind_err (f x) h)"
  by (cases m) auto

subsection \<open>chunks\<close>

lemma chunks_Nil [simp]: "chunks n [] = []"
  by (simp add: chunks.simps)

lemma chunks_0 [simp]: "chunks 0 xs = []"
  by (simp add: chunks.simps)

lemma chunks_step: "0 < n \<Longrightarrow> xs \<noteq> [] \<Longrightarrow> chunks n xs = take n xs # chunks n (drop n xs)"
  by (subst chunks.simps) simp






lemma chunks_1: "chunks (Suc 0) xs = map (\<lambda>x. [x]) xs"
  by (induction xs) (simp_all add: chunks_step)

subsection \<open>Matrices\<close>


lemma is_mat_length: "is_mat n m A \<Longrightarrow> length A = n"
  by (simp add: is_mat_def)

lemma is_mat_ncols: "is_mat n m A \<Longrightarrow> 0 < n \<Longrightarrow> ncols A = m"
  by (cases A) (auto simp: is_mat_def ncols_def)

lemma is_matI: "length A = n \<Longrightarrow> (\<And>i. i < n \<Longrightarrow> length (A ! i) = m) \<Longrightarrow> is_mat n m A"
  by (simp add: is_mat_def list_all_length)


lemma dot_Nil [simp]: "dot [] ys = 0" "dot xs [] = 0"
  by (simp_all add: dot_def)

lemma dot_Cons [simp]: "dot (x # xs) (y # ys) = x * y + dot xs ys"
  by (simp add: dot_def)


lemma dot_replicate_0 [simp]: "dot (replicate k 0) xs = 0"
  by (induction k arbitrary: xs) (auto simp: dot_def split: list.splits simp: zip_Cons1)

lemma mat_mul_is_mat: "is_mat n m A \<Longrightarrow> is_mat n (ncols B) (mat_mul A B)"
  by (simp add: is_mat_def mat_mul_def list_all_length)


lemma length_col [simp]: "length (col B j) = length B"
  by (simp add: col_def)


lemma col_mat_mul: "j < ncols B \<Longrightarrow> col (mat_mul A B) j = mat_vec A (col B j)"
  by (simp add: col_def mat_mul_def mat_vec_def)




subsection \<open>The masks and the effective factors\<close>


lemma is_mat_eye: "is_mat n n (eye n)"
  by (simp add: is_mat_def eye_def list_all_length)


lemma is_mat_tril_ones: "is_mat n n (tril_ones n)"
  by (simp add: is_mat_def tril_ones_def list_all_length)


lemma is_mat_transpose: "is_mat n m A \<Longrightarrow> 0 < n \<Longrightarrow> is_mat m n (mat_transpose A)"
  by (simp add: mat_transpose_def is_mat_ncols is_mat_def list_all_length)


lemma is_mat_diag_mat: "is_mat (length v) (length v) (diag_mat v)"
  by (simp add: is_mat_def diag_mat_def list_all_length)



lemma is_mat_add: "is_mat n m A \<Longrightarrow> is_mat n m B \<Longrightarrow> is_mat n m (mat_add A B)"
  by (simp add: mat_add_def is_mat_def list_all_length)

lemma is_mat_hadamard: "is_mat n m A \<Longrightarrow> is_mat n m B \<Longrightarrow> is_mat n m (mat_hadamard A B)"
  by (simp add: mat_hadamard_def is_mat_def list_all_length)

lemma length_eff_diag: "conv_wf n c \<Longrightarrow> length (eff_diag c) = n"
  by (simp add: conv_wf_def eff_diag_def)

lemma eff_diag_nth: "conv_wf n c \<Longrightarrow> i < n \<Longrightarrow> eff_diag c ! i = sign_s c ! i * exp (log_s c ! i)"
  by (simp add: conv_wf_def eff_diag_def)


lemma abs_eff_diag: "conv_wf n c \<Longrightarrow> i < n \<Longrightarrow> \<bar>eff_diag c ! i\<bar> = exp (log_s c ! i)"
  by (auto simp: eff_diag_nth abs_mult) (auto simp: conv_wf_def list_all_length)

lemma is_mat_U_mask: "conv_wf n c \<Longrightarrow> is_mat n n (U_mask c)"
  by (simp add: conv_wf_def is_mat_transpose is_mat_tril_ones)


lemma conv_wf_L: "conv_wf n c \<Longrightarrow> is_mat n n (conv_L c)"
  and conv_wf_U: "conv_wf n c \<Longrightarrow> is_mat n n (conv_U c)"
  and conv_wf_L_mask: "conv_wf n c \<Longrightarrow> is_mat n n (L_mask c)"
  and conv_wf_I: "conv_wf n c \<Longrightarrow> is_mat n n (conv_I c)"
  and conv_wf_pos: "conv_wf n c \<Longrightarrow> 0 < n"
  by (simp_all add: conv_wf_def is_mat_tril_ones is_mat_eye)

lemma is_mat_eff_diag: "conv_wf n c \<Longrightarrow> is_mat n n (diag_mat (eff_diag c))"
  using is_mat_diag_mat [of "eff_diag c"] by (simp add: length_eff_diag)


lemma is_mat_eff_U: "conv_wf n c \<Longrightarrow> is_mat n n (eff_U c)"
  unfolding eff_U_def by (intro is_mat_add is_mat_hadamard conv_wf_U is_mat_U_mask is_mat_eff_diag)

lemma is_mat_packed_LU: "conv_wf n c \<Longrightarrow> is_mat n n (packed_LU c)"
  unfolding packed_LU_def
  by (intro is_mat_add is_mat_hadamard conv_wf_U conv_wf_L conv_wf_L_mask is_mat_U_mask is_mat_eff_diag)






subsection \<open>Triangular solves\<close>








subsection \<open>Row interchanges and the permutation matrix\<close>

lemma length_swap_list [simp]: "length (swap_list i j xs) = length xs"
  by (simp add: swap_list_def)


lemma length_fold_swap [simp]:
  "length (fold (\<lambda>k v. swap_list k (p k) v) ks ys) = length ys"
  by (induction ks arbitrary: ys) simp_all


lemma fold_swap_perm:
  "\<forall>k \<in> set ks. k < length ys \<and> p k < length ys \<Longrightarrow>
   distinct (fold (\<lambda>k v. swap_list k (p k) v) ks ys) = distinct ys \<and>
   set (fold (\<lambda>k v. swap_list k (p k) v) ks ys) = set ys"
proof (induction ks arbitrary: ys)
  case Nil
  then show ?case by simp
next
  case (Cons k ks)
  then have k: "k < length ys" "p k < length ys" by simp_all
  have "distinct (swap_list k (p k) ys) = distinct ys" "set (swap_list k (p k) ys) = set ys"
    using k by (simp_all add: swap_list_def)
  moreover have "\<forall>k' \<in> set ks. k' < length (swap_list k (p k) ys) \<and> p k' < length (swap_list k (p k) ys)"
    using Cons.prems by simp
  ultimately show ?case using Cons.IH [of "swap_list k (p k) ys"] by simp
qed

lemma valid_pivots_nth: "valid_pivots n piv \<Longrightarrow> k < n \<Longrightarrow> piv ! k - 1 < n"
  by (auto simp: valid_pivots_def list_all_length)

lemma valid_pivots_nth': "valid_pivots n piv \<Longrightarrow> k < n \<Longrightarrow> piv ! k - Suc 0 < n"
  using valid_pivots_nth [of n piv k] by simp

lemma valid_pivots_length: "valid_pivots n piv \<Longrightarrow> length piv = n"
  by (simp add: valid_pivots_def)

lemma final_order_props:
  assumes "valid_pivots n piv"
  shows "length (final_order n piv) = n" "distinct (final_order n piv)"
    "set (final_order n piv) = {..<n}"
proof -
  have *: "\<forall>k \<in> set [0..<length piv]. k < length [0..<n] \<and> piv ! k - 1 < length [0..<n]"
    using assms by (simp add: valid_pivots_nth' valid_pivots_length)
  show "length (final_order n piv) = n" by (simp add: final_order_def)
  have "distinct (final_order n piv) = distinct [0..<n] \<and> set (final_order n piv) = set [0..<n]"
    unfolding final_order_def by (rule fold_swap_perm [OF *])
  then show "distinct (final_order n piv)" "set (final_order n piv) = {..<n}"
    by (simp_all add: atLeast0LessThan)
qed




lemma is_mat_conv_P: "conv_wf n c \<Longrightarrow> is_mat n n (conv_P c)"
  using final_order_props(1) [of n "pivots c"]
  by (simp add: conv_wf_def index_select_cols_def is_mat_def eye_def list_all_length)







section \<open>Order of the stages\<close>

lemma forward_loop_stage:
  "forward_loop g (i # is) s = bind_err (stage_forward g i s) (forward_loop g is)"
  by (simp add: stage_forward_def bind_err_assoc)

lemma backward_loop_stage:
  "backward_loop g (i # is) s = bind_err (stage_inverse g i s) (backward_loop g is)"
  by (simp add: stage_inverse_def bind_err_assoc)

lemma forward_loop_append:
  "forward_loop g (is @ js) s = bind_err (forward_loop g is s) (forward_loop g js)"
proof (induction "is" arbitrary: s)
  case Nil
  show ?case by simp
next
  case (Cons i "is")
  show ?case
    unfolding append_Cons forward_loop_stage
    by (cases "stage_forward g i s") (simp_all add: Cons.IH)
qed

lemma forward_loop_single: "forward_loop g [i] s = stage_forward g i s"
  unfolding forward_loop_stage by (cases "stage_forward g i s") simp_all

lemma forward_loop_spec: "forward_loop g [0..<n] s = spec_forward g n s"
proof (induction n)
  case 0
  show ?case by simp
next
  case (Suc n)
  have "forward_loop g [0..<Suc n] s = bind_err (forward_loop g [0..<n] s) (forward_loop g [n])"
    by (simp add: forward_loop_append)
  also have "forward_loop g [n] = stage_forward g n"
    by (rule ext) (rule forward_loop_single)
  finally show ?case by (simp add: Suc.IH)
qed

lemma backward_loop_spec: "backward_loop g (rev [0..<n]) s = spec_inverse g n s"
proof (induction n arbitrary: s)
  case 0
  show ?case by simp
next
  case (Suc n)
  have "rev [0..<Suc n] = n # rev [0..<n]"
    by simp
  then have "backward_loop g (rev [0..<Suc n]) s = bind_err (stage_inverse g n s) (backward_loop g (rev [0..<n]))"
    by (simp only: backward_loop_stage)
  also have "backward_loop g (rev [0..<n]) = spec_inverse g n"
    by (rule ext) (rule Suc.IH)
  finally show ?case by simp
qed

text \<open>C5. The inverse pass of the pipeline inverts the stages from the last declared one
  down to the first, each by the coupling inverse, then the linear inverse, then the
  normalisation inverse; the forward pass runs the stages in declared order, each as
  normalisation, linear transform, coupling.\<close>

theorem backward_reverse_order:
  "Glow_backward g z = bind_err (size_at z 0) (\<lambda>B. spec_inverse g (n_layers g) (z, replicate B 0)) \<and>
   Glow_forward g y = bind_err (size_at y 0) (\<lambda>B. spec_forward g (n_layers g) (y, replicate B 0)) \<and>
   spec_inverse g (Suc n) s =
     bind_err (bwd (couplings g ! n) (fst s) (snd s)) (\<lambda>s1.
     bind_err (InvertibleConv1x1_backward (linears g ! n) (fst s1) (snd s1)) (\<lambda>s2.
     bind_err (bwd (actnorms g ! n) (fst s2) (snd s2)) (spec_inverse g n)))"
  by (simp add: Glow_backward_def Glow_forward_def backward_loop_spec forward_loop_spec
      stage_inverse_def bind_err_assoc)

subsection \<open>The weight matrix and the two passes on tensors\<close>

lemma ncols_mat_mul: "A \<noteq> [] \<Longrightarrow> ncols (mat_mul A B) = ncols B"
  by (cases A) (simp_all add: ncols_def mat_mul_def)

lemma is_mat_weight: "conv_wf n c \<Longrightarrow> is_mat n n (weight c)"
proof -
  assume wf: "conv_wf n c"
  have n: "0 < n" using wf by (rule conv_wf_pos)
  have "is_mat n (ncols (eff_U c)) (weight c)"
    unfolding weight_def
    by (rule mat_mul_is_mat [where m = "ncols (eff_L c)"])
       (rule mat_mul_is_mat [OF is_mat_conv_P [OF wf]])
  then show ?thesis using is_mat_ncols [OF is_mat_eff_U [OF wf] n] by simp
qed

lemma chunks_1': "chunks 1 xs = map (\<lambda>x. [x]) xs"
  using chunks_1 [of xs] by simp





lemma forward_eq:
  assumes wf: "conv_wf n c" and sh: "shape z = B # n # sp" and B: "0 < B"
  shows "InvertibleConv1x1_forward c z ld =
    Inr (\<lparr>shape = shape z,
          data = concat (map (\<lambda>s. concat (mat_mul (weight c) (chunks (prod_list sp) s)))
                   (chunks (n * prod_list sp) (data z)))\<rparr>,
         map (\<lambda>v. v + sum_list (log_s c)) ld)"
proof -
  have n: "0 < n" using wf by (rule conv_wf_pos)
  have W: "length (weight c) = n" "ncols (weight c) = n"
    using is_mat_weight [OF wf] n by (simp_all add: is_mat_length is_mat_ncols)
  have s0: "size_at z 0 = Inr B" and s1: "size_at z (Suc 0) = Inr n"
    using sh by (simp_all add: size_at_def)
  have numel: "numel z = B * n * prod_list sp" using sh by (simp add: numel_def)
  have v: "view_infer z B n = Inr \<lparr>shape = [B, n, prod_list sp], data = data z\<rparr>"
    using B n by (simp add: view_infer_def numel)
  show ?thesis
    unfolding InvertibleConv1x1_forward_def
    by (simp add: s0 s1 v matmul_def W view_def numel_def sh)
qed


lemma backward_eq:
  assumes wf: "conv_wf n c" and sh: "shape y \<noteq> []" "last (shape y) = n"
  shows "InvertibleConv1x1_backward c y ld =
    Inr (\<lparr>shape = (if butlast (shape y) = [] then [1, n] else shape y),
          data = concat (map (\<lambda>s. concat (solve_mat (packed_LU c) (pivots c) (chunks 1 s)))
                   (chunks n (data y)))\<rparr>,
         map (\<lambda>v. v - sum_list (log_s c)) ld)"
proof -
  have n: "0 < n" using wf by (rule conv_wf_pos)
  have LU: "length (packed_LU c) = n" "ncols (packed_LU c) = n"
    using is_mat_packed_LU [OF wf] n by (simp_all add: is_mat_length is_mat_ncols)
  have piv: "length (pivots c) = n" using wf by (simp add: conv_wf_def valid_pivots_def)
  have bl: "butlast (shape y) @ [n] = shape y" using sh by (metis append_butlast_last_id)
  have "lu_solve (unsqueeze_last y) (packed_LU c) (pivots c) =
    Inr \<lparr>shape = (if butlast (shape y) = [] then [1] else butlast (shape y)) @ [n, 1],
         data = concat (map (\<lambda>s. concat (solve_mat (packed_LU c) (pivots c) (chunks 1 s)))
                   (chunks n (data y)))\<rparr>"
    using sh by (cases "shape y") (simp_all add: lu_solve_def unsqueeze_last_def LU piv Let_def butlast_append)
  then show ?thesis
    unfolding InvertibleConv1x1_backward_def
    using bl by (auto simp: squeeze_last_def butlast_append)
qed

lemma backward_Inr_iff:
  assumes wf: "conv_wf n c"
  shows "(\<exists>r. InvertibleConv1x1_backward c y ld = Inr r) \<longleftrightarrow> (shape y \<noteq> [] \<and> last (shape y) = n)"
proof
  assume "shape y \<noteq> [] \<and> last (shape y) = n"
  then show "\<exists>r. InvertibleConv1x1_backward c y ld = Inr r"
    using backward_eq [OF wf] by blast
next
  have n: "0 < n" using wf by (rule conv_wf_pos)
  have LU: "length (packed_LU c) = n"
    using is_mat_packed_LU [OF wf] by (simp add: is_mat_length)
  assume "\<exists>r. InvertibleConv1x1_backward c y ld = Inr r"
  then obtain x where "lu_solve (unsqueeze_last y) (packed_LU c) (pivots c) = Inr x"
    unfolding InvertibleConv1x1_backward_def bind_err_eq_Inr by blast
  then show "shape y \<noteq> [] \<and> last (shape y) = n"
    by (cases "shape y") (auto simp: lu_solve_def unsqueeze_last_def Let_def LU butlast_append split: if_splits)
qed






lemma upt_2: "[0..<2] = [0, Suc 0]"
  by (simp add: numeral_2_eq_2)

lemma final_order_ex: "final_order 2 [2, 2] = [Suc 0, 0]"
  by (simp add: final_order_def upt_2 swap_list_def)

lemma final_order_ex': "final_order (Suc (Suc 0)) [2, 2] = [Suc 0, 0]"
  using final_order_ex by (simp add: numeral_2_eq_2)

lemma ex_conv_init: "InvertibleConv1x1_init 2 ex_LU ex_piv = Inr ex_conv"
  by (simp add: InvertibleConv1x1_init_def ex_LU_def ex_piv_def ex_conv_def lu_unpack_def Let_def
      final_order_ex final_order_ex' index_select_cols_def eye_def tril_ones_def mat_transpose_def ncols_def col_def
      diag_of_def upt_2)

lemma ex_conv_wf: "conv_wf 2 ex_conv"
  by (simp add: conv_wf_def ex_conv_def is_mat_def valid_pivots_def final_order_ex
      index_select_cols_def eye_def tril_ones_def mat_transpose_def ncols_def col_def upt_2)

lemma ex_weight: "weight ex_conv = [[6, 2], [2, 1]]"
  by (simp add: weight_def eff_L_def eff_U_def eff_diag_def ex_conv_def mat_mul_def mat_add_def
      mat_hadamard_def diag_mat_def ncols_def col_def upt_2 dot_def)




subsection \<open>Elements of the forward result\<close>










section \<open>The linear layer: shape, accumulator, inverse and domain\<close>

lemma chunks_eval:
  "chunks 2 [a, b] = [[a, b]]" "chunks 2 [a, b, c, d] = [[a, b], [c, d]]"
  "chunks 3 [a, b, c] = [[a, b, c]]" "chunks 6 [a, b, c, d, e, f] = [[a, b, c, d, e, f]]"
  "chunks 3 [a, b, c, d, e, f] = [[a, b, c], [d, e, f]]"
  "chunks 4 [a, b, c, d] = [[a, b, c, d]]"
  by (simp_all add: chunks.simps)

lemma ex_sum_log_s: "sum_list (log_s ex_conv) = ln 2"
  by (simp add: ex_conv_def)




lemma ex_forward_2d:
  "InvertibleConv1x1_forward ex_conv \<lparr>shape = [1, 2], data = [1, 1]\<rparr> [0]
   = Inr (\<lparr>shape = [1, 2], data = [8, 3]\<rparr>, [ln 2])"
  using forward_eq [OF ex_conv_wf, of "\<lparr>shape = [1, 2], data = [1, 1]\<rparr>" 1 "[]" "[0]"]
  by (simp add: ex_weight chunks_eval chunks_1 mat_mul_def ncols_def col_def dot_def upt_rec_numeral ex_sum_log_s)




















section \<open>Frozen parameters\<close>

lemma iadd_Ext_inst: "iadd g h (Ext k) s = Inr h' \<Longrightarrow> inst h' = inst h"
  by auto

lemma iadd_read: "iadd g h r s = Inr h' \<Longrightarrow> read_acc h' r = map (\<lambda>v. v + s) (read_acc h r)"
  by (cases r) (auto simp: map_concat split: if_splits)

text \<open>What a call leaves in the accumulator object is the accumulator that the method
  computes on values.\<close>

lemma forward_call_value:
  assumes "forward_call h z r = (h', Inr (out, r'))"
  shows "InvertibleConv1x1_forward (inst h) z (read_acc h r) = Inr (out, read_acc h' r) \<and> r' = r"
proof -
  from assms obtain res where f: "InvertibleConv1x1_forward (inst h) z (read_acc h r) = Inr res"
    and w: "iadd True h r (sum_list (log_s (inst h))) = Inr h'" and o: "out = fst res" "r' = r"
    by (auto simp: forward_call_def split: sum.splits)
  have "snd res = map (\<lambda>v. v + sum_list (log_s (inst h))) (read_acc h r)"
    using f by (auto simp: InvertibleConv1x1_forward_def bind_err_eq_Inr)
  then have "snd res = read_acc h' r" using iadd_read [OF w] by simp
  then show ?thesis using f o by (cases res) simp
qed

lemma backward_call_value:
  assumes "backward_call h y r = (h', Inr (out, r'))"
  shows "InvertibleConv1x1_backward (inst h) y (read_acc h r) = Inr (out, read_acc h' r) \<and> r' = r"
proof -
  from assms obtain res where f: "InvertibleConv1x1_backward (inst h) y (read_acc h r) = Inr res"
    and w: "iadd False h r (- sum_list (log_s (inst h))) = Inr h'" and o: "out = fst res" "r' = r"
    by (auto simp: backward_call_def split: sum.splits)
  have "snd res = map (\<lambda>v. v - sum_list (log_s (inst h))) (read_acc h r)"
    using f by (auto simp: InvertibleConv1x1_backward_def bind_err_eq_Inr)
  then have "snd res = read_acc h' r" using iadd_read [OF w] by simp
  then show ?thesis using f o by (cases res) simp
qed

lemma forward_call_Ext: "inst (fst (forward_call h z (Ext k))) = inst h"
  by (simp add: forward_call_def split: sum.splits)

lemma backward_call_Ext: "inst (fst (backward_call h y (Ext k))) = inst h"
  by (simp add: backward_call_def split: sum.splits)

lemma run_call_own: "own_accumulator x \<Longrightarrow> frozen (inst (run_call h x)) = frozen (inst h)"
proof (cases x)
  case (Forward z r)
  assume "own_accumulator x"
  with Forward obtain k where "r = Ext k" by (cases r) simp_all
  with Forward show ?thesis by (simp add: forward_call_Ext)
next
  case (Backward y r)
  assume "own_accumulator x"
  with Backward obtain k where "r = Ext k" by (cases r) simp_all
  with Backward show ?thesis by (simp add: backward_call_Ext)
next
  case (Update L' U' ls')
  then show ?thesis by (simp add: frozen_def update_params_def)
qed

text \<open>C9 (as amended). After any sequence of forward calls, backward calls and updates of the
  trainable tensors in which every accumulator is a tensor of the caller, the permutation
  matrix, the signs, the pivots, the two masks and the identity are what they were; such a
  forward or backward call leaves the whole instance as it was.\<close>

theorem frozen_parameters_unchanged:
  assumes "list_all own_accumulator xs"
  shows "frozen (inst (run_calls h xs)) = frozen (inst h) \<and>
         inst (fst (forward_call h z (Ext k))) = inst h \<and>
         inst (fst (backward_call h y (Ext k))) = inst h"
proof -
  have "frozen (inst (run_calls h xs)) = frozen (inst h)"
    using assms by (induction xs arbitrary: h) (simp_all add: run_call_own)
  then show ?thesis by (simp add: forward_call_Ext backward_call_Ext)
qed

lemma ex_forward_call:
  "forward_call ex_heap \<lparr>shape = [1, 2], data = [1, 1]\<rparr> (Ext 0)
   = (\<lparr>inst = ex_conv, ext = (\<lambda>k. [0])(0 := [ln 2])\<rparr>, Inr (\<lparr>shape = [1, 2], data = [8, 3]\<rparr>, Ext 0))"
  using ex_forward_2d by (simp add: forward_call_def ex_heap_def ex_sum_log_s)

theorem frozen_parameters_unchanged_witness:
  "list_all own_accumulator
     [Forward \<lparr>shape = [1, 2], data = [1, 1]\<rparr> (Ext 0), Update [[0, 0], [5, 0]] [[0, 7], [0, 0]] [1, 2],
      Backward \<lparr>shape = [1, 2], data = [8, 3]\<rparr> (Ext 0)] \<and>
   frozen (inst (run_calls ex_heap
     [Forward \<lparr>shape = [1, 2], data = [1, 1]\<rparr> (Ext 0), Update [[0, 0], [5, 0]] [[0, 7], [0, 0]] [1, 2],
      Backward \<lparr>shape = [1, 2], data = [8, 3]\<rparr> (Ext 0)])) = frozen ex_conv \<and>
   ext (run_call ex_heap (Forward \<lparr>shape = [1, 2], data = [1, 1]\<rparr> (Ext 0))) 0 = [ln 2]"
proof -
  have a: "list_all own_accumulator
     [Forward \<lparr>shape = [1, 2], data = [1, 1]\<rparr> (Ext 0), Update [[0, 0], [5, 0]] [[0, 7], [0, 0]] [1, 2],
      Backward \<lparr>shape = [1, 2], data = [8, 3]\<rparr> (Ext 0)]"
    by simp
  have b: "inst ex_heap = ex_conv" by (simp add: ex_heap_def)
  show ?thesis
    using frozen_parameters_unchanged [OF a, of ex_heap] a b ex_forward_call by simp
qed

theorem frozen_parameters_counterexample:
  "sign_s (inst ex_heap) = [1, -1] \<and>
   sign_s (inst (run_call ex_heap (Backward \<lparr>shape = [1, 2], data = [8, 3]\<rparr> Ref_sign_s)))
     = [1 - ln 2, - 1 - ln 2] \<and>
   frozen (inst (run_call ex_heap (Backward \<lparr>shape = [1, 2], data = [8, 3]\<rparr> Ref_sign_s)))
     \<noteq> frozen (inst ex_heap)"
proof -
  obtain r where r: "InvertibleConv1x1_backward ex_conv \<lparr>shape = [1, 2], data = [8, 3]\<rparr> [1, -1] = Inr r"
    using backward_Inr_iff [OF ex_conv_wf, of "\<lparr>shape = [1, 2], data = [8, 3]\<rparr>" "[1, -1]"] by auto
  have s: "sign_s ex_conv = [1, -1]" by (simp add: ex_conv_def)
  have c: "sign_s (inst (run_call ex_heap (Backward \<lparr>shape = [1, 2], data = [8, 3]\<rparr> Ref_sign_s)))
     = [1 - ln 2, - 1 - ln 2]"
    using r by (simp add: backward_call_def ex_heap_def s ex_sum_log_s)
  have "ln (2::real) \<noteq> 0" by simp
  then show ?thesis using c by (simp add: frozen_def ex_heap_def s)
qed


section \<open>Round trip of the pipeline\<close>
















subsection \<open>The example pipelines\<close>



text \<open>The two irregular layers return what they were given when the accumulator is zero.\<close>

lemma ex_irregular_layers_at_zero:
  "fwd ex_state_layer x (replicate k 0) = Inr (x, replicate k 0)"
  "bwd ex_state_layer x (replicate k 0) = Inr (x, replicate k 0)"
  "fwd ex_logdet_layer x (replicate k 0) = Inr (x, replicate k 0)"
  "bwd ex_logdet_layer x (replicate k 0) = Inr (x, replicate k 0)"
  by (simp_all add: ex_state_layer_def ex_logdet_layer_def sum_list_replicate)














section \<open>Properties of the determinant\<close>

declare detf.simps(2) [simp del]

lemma detf_cong:
  "(\<And>i j. i < n \<Longrightarrow> j < n \<Longrightarrow> A i j = B i j) \<Longrightarrow> detf n A = detf n B"
proof (induction n arbitrary: A B)
  case 0
  show ?case by simp
next
  case (Suc n)
  have "(- 1) ^ i * A i 0 * detf n (\<lambda>r c. A (skip i r) (Suc c))
      = (- 1) ^ i * B i 0 * detf n (\<lambda>r c. B (skip i r) (Suc c))" if i: "i < Suc n" for i
  proof -
    have "detf n (\<lambda>r c. A (skip i r) (Suc c)) = detf n (\<lambda>r c. B (skip i r) (Suc c))"
      by (rule Suc.IH) (rule Suc.prems, simp_all add: skip_def)
    then show ?thesis using Suc.prems [of i 0] i by simp
  qed
  then show ?case unfolding detf.simps by (intro sum.cong refl) simp
qed

lemma skip_neq: "skip i r \<noteq> i"
  by (simp add: skip_def)

lemma skip_eq_iff: "i \<noteq> k \<Longrightarrow> skip i r = k \<longleftrightarrow> r = unskip i k"
  by (auto simp: skip_def unskip_def)

lemma minor_upd_same:
  "(\<lambda>r c. (A(k := x)) (skip k r) (Suc c)) = (\<lambda>r c. A (skip k r) (Suc c))"
  by (simp add: skip_neq)

lemma minor_upd_other:
  "i \<noteq> k \<Longrightarrow> (\<lambda>r c. (A(k := x)) (skip i r) (Suc c))
     = (\<lambda>r c. A (skip i r) (Suc c))(unskip i k := \<lambda>c. x (Suc c))"
  by (rule ext) (auto simp: skip_eq_iff)

lemma unskip_less: "i \<noteq> k \<Longrightarrow> i < Suc n \<Longrightarrow> k < Suc n \<Longrightarrow> unskip i k < n"
  by (auto simp: unskip_def)

lemma detf_row_add:
  "k < n \<Longrightarrow> detf n (A(k := \<lambda>j. x j + y j)) = detf n (A(k := x)) + detf n (A(k := y))"
proof (induction n arbitrary: A k x y)
  case 0
  then show ?case by simp
next
  case (Suc n)
  let ?t = "\<lambda>B i. (- 1) ^ i * B i 0 * detf n (\<lambda>r c. B (skip i r) (Suc c))"
  have "?t (A(k := \<lambda>j. x j + y j)) i = ?t (A(k := x)) i + ?t (A(k := y)) i" if i: "i < Suc n" for i
  proof (cases "i = k")
    case True
    then show ?thesis by (simp add: skip_neq algebra_simps)
  next
    case False
    let ?M = "\<lambda>r c. A (skip i r) (Suc c)"
    have u: "unskip i k < n" using False i Suc.prems by (rule unskip_less)
    have mo: "\<And>row. (\<lambda>r c. (A(k := row)) (skip i r) (Suc c)) = ?M(unskip i k := \<lambda>c. row (Suc c))"
      using False by (rule minor_upd_other)
    have hd: "\<And>row. (A(k := row)) i 0 = A i 0" using False by simp
    have "?t (A(k := \<lambda>j. x j + y j)) i
        = (- 1) ^ i * A i 0 * detf n (?M(unskip i k := \<lambda>c. x (Suc c) + y (Suc c)))"
      by (simp only: mo hd)
    also have "\<dots> = (- 1) ^ i * A i 0 *
        (detf n (?M(unskip i k := \<lambda>c. x (Suc c))) + detf n (?M(unskip i k := \<lambda>c. y (Suc c))))"
      by (simp only: Suc.IH [OF u])
    also have "\<dots> = ?t (A(k := x)) i + ?t (A(k := y)) i"
      by (simp only: mo hd distrib_left)
    finally show ?thesis .
  qed
  then show ?case unfolding detf.simps by (simp add: sum.distrib [symmetric])
qed

lemma detf_row_scale:
  "k < n \<Longrightarrow> detf n (A(k := \<lambda>j. a * x j)) = a * detf n (A(k := x))"
proof (induction n arbitrary: A k x)
  case 0
  then show ?case by simp
next
  case (Suc n)
  let ?t = "\<lambda>B i. (- 1) ^ i * B i 0 * detf n (\<lambda>r c. B (skip i r) (Suc c))"
  have t: "?t (A(k := \<lambda>j. a * x j)) i = a * ?t (A(k := x)) i" if i: "i < Suc n" for i
  proof (cases "i = k")
    case True
    then show ?thesis by (simp add: skip_neq algebra_simps)
  next
    case False
    let ?M = "\<lambda>r c. A (skip i r) (Suc c)"
    have u: "unskip i k < n" using False i Suc.prems by (rule unskip_less)
    have mo: "\<And>row. (\<lambda>r c. (A(k := row)) (skip i r) (Suc c)) = ?M(unskip i k := \<lambda>c. row (Suc c))"
      using False by (rule minor_upd_other)
    have hd: "\<And>row. (A(k := row)) i 0 = A i 0" using False by simp
    have "?t (A(k := \<lambda>j. a * x j)) i
        = (- 1) ^ i * A i 0 * detf n (?M(unskip i k := \<lambda>c. a * x (Suc c)))"
      by (simp only: mo hd)
    also have "\<dots> = (- 1) ^ i * A i 0 * (a * detf n (?M(unskip i k := \<lambda>c. x (Suc c))))"
      by (simp only: Suc.IH [OF u])
    also have "\<dots> = a * ?t (A(k := x)) i"
      by (simp only: mo hd mult_ac)
    finally show ?thesis .
  qed
  have "(\<Sum>i<Suc n. ?t (A(k := \<lambda>j. a * x j)) i) = (\<Sum>i<Suc n. a * ?t (A(k := x)) i)"
    by (rule sum.cong [OF refl]) (rule t, simp)
  also have "\<dots> = a * (\<Sum>i<Suc n. ?t (A(k := x)) i)"
    by (rule sum_distrib_left [symmetric])
  finally show ?case unfolding detf.simps .
qed


end
